theory Spec2Isabelle
  imports Complex_Main "HOL-Library.Word" "HOL-Library.Signed_Division"
begin

section \<open>Basic data structures of \<^verbatim>\<open>matlab/src/bits/data.hpp\<close>\<close>

text \<open>
  The header declares the enumerations, the inline helpers \<^verbatim>\<open>getDataTypeSizeInBytes\<close>,
  \<^verbatim>\<open>divideAndRoundUp\<close> and \<^verbatim>\<open>areCompatible\<close>, and the classes \<^verbatim>\<open>Buffer\<close>,
  \<^verbatim>\<open>Context\<close>, \<^verbatim>\<open>TensorShape\<close> and \<^verbatim>\<open>Tensor\<close> (fields and member signatures).
  The member functions' bodies live in \<^verbatim>\<open>data.cpp\<close>, which is not among the sources;
  they are modelled from the specification and marked as such.
\<close>

subsection \<open>Enumerations\<close>

datatype ErrorCode =
    VLE_Success
  | VLE_Unsupported
  | VLE_Cuda
  | VLE_Cudnn
  | VLE_Cublas
  | VLE_OutOfMemory
  | VLE_OutOfGPUMemeory
  | VLE_IllegalArgument
  | VLE_Unknown
  | VLE_Timeout
  | VLE_NoData
  | VLE_IllegalMessage
  | VLE_Interrupted

datatype DeviceType = VLDT_CPU | VLDT_GPU

datatype DataType = VLDT_Char | VLDT_Float | VLDT_Double

text \<open>
  A C++ enumeration is an integer underneath; the enumerators of \<^verbatim>\<open>DataType\<close> are
  numbered 0, 1, 2 in declaration order. A \<^verbatim>\<open>switch\<close> with a \<^verbatim>\<open>default\<close> label sees
  that integer, so the switch below is modelled on it.
\<close>

fun DataType_value :: "DataType \<Rightarrow> int" where
  "DataType_value VLDT_Char = 0"
| "DataType_value VLDT_Float = 1"
| "DataType_value VLDT_Double = 2"

subsection \<open>Sizes of the builtin types\<close>

text \<open>
  \<^verbatim>\<open>DataTypeTraits<T>::size\<close> is \<^verbatim>\<open>sizeof\<close> of the builtin type. \<^verbatim>\<open>sizeof(char)\<close> is 1
  in every C++ implementation; \<^verbatim>\<open>sizeof(float)\<close> and \<^verbatim>\<open>sizeof(double)\<close> are those of
  IEEE-754 single and double precision on the platforms the library targets.
\<close>

definition sizeof_char :: nat where
  "sizeof_char = 1"

definition sizeof_float :: nat where
  "sizeof_float = 4"

definition sizeof_double :: nat where
  "sizeof_double = 8"

fun DataTypeTraits_size :: "DataType \<Rightarrow> nat" where
  "DataTypeTraits_size VLDT_Char = sizeof_char"
| "DataTypeTraits_size VLDT_Float = sizeof_float"
| "DataTypeTraits_size VLDT_Double = sizeof_double"

text \<open>
  \<^verbatim>\<open>getDataTypeSizeInBytes\<close>: the switch over the enumeration's value, with its
  \<^verbatim>\<open>default\<close> branch.
\<close>

definition getDataTypeSizeInBytes_value :: "int \<Rightarrow> nat" where
  "getDataTypeSizeInBytes_value v =
     (if v = DataType_value VLDT_Char then DataTypeTraits_size VLDT_Char
      else if v = DataType_value VLDT_Float then DataTypeTraits_size VLDT_Float
      else if v = DataType_value VLDT_Double then DataTypeTraits_size VLDT_Double
      else 0)"

definition getDataTypeSizeInBytes :: "DataType \<Rightarrow> nat" where
  "getDataTypeSizeInBytes dataType = getDataTypeSizeInBytes_value (DataType_value dataType)"

subsection \<open>Helpers\<close>

text \<open>
  \<^verbatim>\<open>divideAndRoundUp\<close> is a template over the integer type: \<^verbatim>\<open>(a + b - 1) / b\<close>.
  For an unsigned type of any width the arithmetic wraps and the division is the
  unsigned one. For a signed type (\<^verbatim>\<open>Int\<close> is \<^verbatim>\<open>ptrdiff_t\<close>) the operands are read
  in two's complement and \<^verbatim>\<open>/\<close> truncates towards zero; an overflowing sum is
  undefined in C++ and wraps here.
\<close>

definition divideAndRoundUp :: "'a::len word \<Rightarrow> 'a word \<Rightarrow> 'a word" where
  "divideAndRoundUp a b = (a + b - 1) div b"

definition divideAndRoundUp_signed :: "'a::len word \<Rightarrow> 'a word \<Rightarrow> 'a word" where
  "divideAndRoundUp_signed a b = word_of_int (sint (a + b - 1) sdiv sint b)"

subsection \<open>TensorShape\<close>

text \<open>
  The class holds \<^verbatim>\<open>Int dimensions [maxNumDimensions]\<close> and \<^verbatim>\<open>Int numDimensions\<close>.
  The array is a list (of \<^verbatim>\<open>maxNumDimensions\<close> entries in a well-formed shape); only
  the first \<^verbatim>\<open>numDimensions\<close> entries are meaningful. \<^verbatim>\<open>Int\<close> is \<^verbatim>\<open>ptrdiff_t\<close>; the
  specification speaks of the dimensions' mathematical product and is silent about
  overflow, so the entries are unbounded integers here.
\<close>

record TensorShape =
  dimensions :: "int list"
  numDimensions :: int

definition maxNumDimensions :: int where
  "maxNumDimensions = 8"

definition TensorShape_ok :: "'a TensorShape_scheme \<Rightarrow> bool" where
  "TensorShape_ok s =
     (int (length (dimensions s)) = maxNumDimensions \<and>
      0 \<le> numDimensions s \<and> numDimensions s \<le> maxNumDimensions)"

text \<open>The dimensions in use: entries \<^verbatim>\<open>0 .. numDimensions - 1\<close> of the array.\<close>

definition usedDimensions :: "'a TensorShape_scheme \<Rightarrow> int list" where
  "usedDimensions s = take (nat (numDimensions s)) (dimensions s)"

text \<open>
  Modelled from the spec: the body of \<^verbatim>\<open>TensorShape::getNumElements\<close> (declared in the
  header, defined in \<^verbatim>\<open>data.cpp\<close>). The spec: the product of all dimensions, 1 for a
  shape with no dimensions. The product is accumulated over the dimensions in use.
\<close>

definition getNumElements :: "'a TensorShape_scheme \<Rightarrow> int" where
  "getNumElements s = fold (\<lambda>d n. n * d) (usedDimensions s) 1"

text \<open>
  Modelled from the spec: the body of \<^verbatim>\<open>TensorShape::isEmpty\<close> (declared in the header,
  defined in \<^verbatim>\<open>data.cpp\<close>). The spec: true iff any dimension is 0 or the shape has no
  dimensions.
\<close>

definition isEmpty :: "'a TensorShape_scheme \<Rightarrow> bool" where
  "isEmpty s = (numDimensions s = 0 \<or> list_ex (\<lambda>d. d = 0) (usedDimensions s))"

subsection \<open>Tensor\<close>

text \<open>
  \<^verbatim>\<open>class Tensor : public TensorShape\<close> adds \<^verbatim>\<open>deviceType\<close>, \<^verbatim>\<open>dataType\<close>, \<^verbatim>\<open>memory\<close>
  and \<^verbatim>\<open>memorySize\<close>. The record extends the shape's; its fields carry the prefix
  \<^verbatim>\<open>tensor_\<close> because \<^verbatim>\<open>Buffer\<close> has fields of the same names. A pointer is an
  address or \<^verbatim>\<open>NULL\<close> (\<open>None\<close>).
\<close>

type_synonym addr = nat

record Tensor = TensorShape +
  tensor_deviceType :: DeviceType
  tensor_dataType :: DataType
  tensor_memory :: "addr option"
  tensor_memorySize :: nat

text \<open>
  Modelled from the spec: the body of the accessor \<^verbatim>\<open>Tensor::getDeviceType\<close> (declared
  in the header, defined in \<^verbatim>\<open>data.cpp\<close>): the tensor's device tag.
\<close>

definition getDeviceType :: "Tensor \<Rightarrow> DeviceType" where
  "getDeviceType t = tensor_deviceType t"

text \<open>
  Modelled from the spec: the body of the accessor \<^verbatim>\<open>Tensor::getDataType\<close> (declared in
  the header, defined in \<^verbatim>\<open>data.cpp\<close>): the tensor's data type.
\<close>

definition getDataType :: "Tensor \<Rightarrow> DataType" where
  "getDataType t = tensor_dataType t"

text \<open>
  Modelled from the spec: the body of \<^verbatim>\<open>Tensor::isNull\<close> (declared in the header,
  defined in \<^verbatim>\<open>data.cpp\<close>). The spec: a tensor is null when it has no memory handle.
\<close>

definition isNull :: "Tensor \<Rightarrow> bool" where
  "isNull t = (tensor_memory t = None)"

text \<open>
  \<^verbatim>\<open>areCompatible\<close>, inline in the header. The last disjunct joins two \<^verbatim>\<open>bool\<close>s with
  the bitwise \<^verbatim>\<open>&\<close>, which on \<^verbatim>\<open>bool\<close> operands is conjunction.
\<close>

definition areCompatible :: "Tensor \<Rightarrow> Tensor \<Rightarrow> bool" where
  "areCompatible a b =
     ((isEmpty a \<or> isNull a) \<or>
      (isEmpty b \<or> isNull b) \<or>
      ((getDeviceType a = getDeviceType b) \<and> (getDataType a = getDataType b)))"

subsection \<open>Memory\<close>

text \<open>
  The allocators of the host and of the accelerator are outside the library. Host and
  accelerator memory are separate address spaces. A block is addressed by its device and
  handle; its elements are scalars of one of the three data types. The contents of a
  block that was never written are whatever the memory holds. Every allocation request
  (with the allocator's answer) and every release is recorded, in order, so that a
  property can say which memory calls an operation made.
\<close>

datatype Scalar = CharValue "8 word" | FloatValue real | DoubleValue real

fun one :: "DataType \<Rightarrow> Scalar" where
  "one VLDT_Char = CharValue 1"
| "one VLDT_Float = FloatValue 1"
| "one VLDT_Double = DoubleValue 1"

datatype MemCall =
    Allocate DeviceType nat "addr option"
  | Release DeviceType addr

record Memory =
  cells :: "DeviceType \<Rightarrow> addr \<Rightarrow> nat \<Rightarrow> Scalar"
  calls :: "MemCall list"

definition allocate :: "addr option \<Rightarrow> DeviceType \<Rightarrow> nat \<Rightarrow> Memory \<Rightarrow> Memory" where
  "allocate answer d bytes m = m\<lparr>calls := calls m @ [Allocate d bytes answer]\<rparr>"

definition release :: "DeviceType \<Rightarrow> addr \<Rightarrow> Memory \<Rightarrow> Memory" where
  "release d p m = m\<lparr>calls := calls m @ [Release d p]\<rparr>"

definition fillOnes :: "DeviceType \<Rightarrow> addr \<Rightarrow> DataType \<Rightarrow> nat \<Rightarrow> Memory \<Rightarrow> Memory" where
  "fillOnes d p t n m =
     m\<lparr>cells := (cells m)(d := (cells m d)(p := (\<lambda>i. if i < n then one t else cells m d p i)))\<rparr>"

subsection \<open>Buffer\<close>

text \<open>
  The fields of \<^verbatim>\<open>vl::impl::Buffer\<close> as the header declares them; \<^verbatim>\<open>size\<close> is
  \<open>size_buf\<close> here (\<open>size\<close> is a constant of HOL). The size counts elements of the
  buffer's data type and is the buffer's capacity. The specification bounds neither the
  size (\<^verbatim>\<open>size_t\<close>) nor the counter (\<^verbatim>\<open>int\<close>); they do not wrap around here.
\<close>

record Buffer =
  deviceType :: DeviceType
  dataType :: DataType
  size_buf :: nat
  memory :: "addr option"
  numReallocations :: int

text \<open>
  Modelled from the spec: the constructor \<^verbatim>\<open>Buffer::Buffer\<close> (declared in the header,
  defined in \<^verbatim>\<open>data.cpp\<close>, as are all members of the class). A buffer is created empty,
  having performed no reallocation; the device and data type of a new buffer are the
  enumerations' first values.
\<close>

definition Buffer_new :: Buffer where
  "Buffer_new =
     \<lparr>deviceType = VLDT_CPU, dataType = VLDT_Char, size_buf = 0, memory = None,
      numReallocations = 0\<rparr>"

text \<open>Modelled from the spec: \<^verbatim>\<open>Buffer::getMemory\<close>, the raw memory handle.\<close>

definition Buffer_getMemory :: "Buffer \<Rightarrow> addr option" where
  "Buffer_getMemory b = memory b"

text \<open>
  Modelled from the spec: \<^verbatim>\<open>Buffer::getNumReallocations\<close>, the count of reallocations
  performed since creation.
\<close>

definition Buffer_getNumReallocations :: "Buffer \<Rightarrow> int" where
  "Buffer_getNumReallocations b = numReallocations b"

text \<open>
  Modelled from the spec: the capacity currently held, in bytes, accounting for the data
  type's size, which \<^verbatim>\<open>Buffer::init\<close> compares a request with.
\<close>

definition capacityInBytes :: "Buffer \<Rightarrow> nat" where
  "capacityInBytes b = size_buf b * getDataTypeSizeInBytes (dataType b)"

text \<open>
  Modelled from the spec: \<^verbatim>\<open>Buffer::clear\<close> releases the memory with the deallocation
  of the buffer's device and resets the size to 0; the device and data type stay as last
  configured and the reallocation counter is unchanged.
\<close>

definition Buffer_clear :: "Memory \<Rightarrow> Buffer \<Rightarrow> Memory \<times> Buffer" where
  "Buffer_clear m b =
     (case memory b of
        None \<Rightarrow> (m, b\<lparr>size_buf := 0\<rparr>)
      | Some p \<Rightarrow> (release (deviceType b) p m, b\<lparr>size_buf := 0, memory := None\<rparr>))"

text \<open>
  Modelled from the spec: \<^verbatim>\<open>Buffer::invalidateGpu\<close> drops the handle and zeroes the
  size of an accelerator buffer without a device-side free, and does nothing to a host
  buffer.
\<close>

definition Buffer_invalidateGpu :: "Memory \<Rightarrow> Buffer \<Rightarrow> Memory \<times> Buffer" where
  "Buffer_invalidateGpu m b =
     (if deviceType b = VLDT_GPU then (m, b\<lparr>size_buf := 0, memory := None\<rparr>) else (m, b))"

text \<open>
  Modelled from the spec: \<^verbatim>\<open>Buffer::init(deviceType, dataType, size)\<close>. A size of 0
  releases any held memory and succeeds. A request that fits the capacity held (in
  bytes) with the same device and data type is a successful no-op. Otherwise the held
  memory is released and memory of exactly the requested size is allocated on the
  requested device; the counter is incremented and the device, type and size are
  stored. When the allocation fails the buffer is left empty and the error is
  out-of-GPU-memory for the accelerator and out-of-memory otherwise. The first argument
  is the allocator's answer, should this call allocate.
\<close>

definition Buffer_init ::
  "addr option \<Rightarrow> Memory \<Rightarrow> Buffer \<Rightarrow> DeviceType \<Rightarrow> DataType \<Rightarrow> nat \<Rightarrow> Memory \<times> Buffer \<times> ErrorCode"
where
  "Buffer_init answer m b deviceType' dataType' size' =
     (if size' = 0 then
        (fst (Buffer_clear m b), snd (Buffer_clear m b), VLE_Success)
      else if deviceType b = deviceType' \<and> dataType b = dataType' \<and>
              size' * getDataTypeSizeInBytes dataType' \<le> capacityInBytes b then
        (m, b, VLE_Success)
      else
        (let m1 = fst (Buffer_clear m b);
             b1 = snd (Buffer_clear m b);
             m2 = allocate answer deviceType' (size' * getDataTypeSizeInBytes dataType') m1
         in case answer of
              None \<Rightarrow>
                (m2, b1, if deviceType' = VLDT_GPU then VLE_OutOfGPUMemeory else VLE_OutOfMemory)
            | Some p \<Rightarrow>
                (m2,
                 b1\<lparr>deviceType := deviceType', dataType := dataType', size_buf := size',
                    memory := Some p, numReallocations := numReallocations b1 + 1\<rparr>,
                 VLE_Success)))"

subsection \<open>Context\<close>

text \<open>
  The fields of \<^verbatim>\<open>vl::Context\<close> as the header declares them. The two arrays of two
  buffers are indexed by the device type; \<^verbatim>\<open>cudaHelper\<close> is a pointer, \<^verbatim>\<open>NULL\<close> until
  the helper is constructed.
\<close>

record Context =
  workspace :: "DeviceType \<Rightarrow> Buffer"
  allOnes :: "DeviceType \<Rightarrow> Buffer"
  lastError :: ErrorCode
  lastErrorMessage :: string
  cudaHelper :: "addr option"

text \<open>
  Modelled from the spec: the constructor \<^verbatim>\<open>Context::Context\<close> (declared in the header,
  defined in \<^verbatim>\<open>data.cpp\<close>, as are all members of the class). A context starts with
  empty buffers, no accelerator helper and the last error Success.
\<close>

definition Context_new :: Context where
  "Context_new =
     \<lparr>workspace = (\<lambda>d. Buffer_new), allOnes = (\<lambda>d. Buffer_new), lastError = VLE_Success,
      lastErrorMessage = [], cudaHelper = None\<rparr>"

text \<open>
  Modelled from the spec: \<^verbatim>\<open>Context::setError(code, msg)\<close> always overwrites the last
  error and returns the code. A message is a C string or \<^verbatim>\<open>NULL\<close> (the default
  argument).
\<close>

definition Context_setError :: "ErrorCode \<Rightarrow> string option \<Rightarrow> Context \<Rightarrow> Context \<times> ErrorCode" where
  "Context_setError error message c =
     (c\<lparr>lastError := error,
        lastErrorMessage := (case message of None \<Rightarrow> [] | Some text \<Rightarrow> text)\<rparr>,
      error)"

text \<open>
  Modelled from the spec: \<^verbatim>\<open>Context::passError(code, msg)\<close> keeps the code it is given,
  annotates the remembered message with the additional context and returns the code. The
  spec fixes no format for the annotated message; the context is put in front of it
  here.
\<close>

definition Context_passError :: "ErrorCode \<Rightarrow> string option \<Rightarrow> Context \<Rightarrow> Context \<times> ErrorCode" where
  "Context_passError error message c =
     (c\<lparr>lastError := error,
        lastErrorMessage :=
          (case message of None \<Rightarrow> lastErrorMessage c | Some text \<Rightarrow> text @ lastErrorMessage c)\<rparr>,
      error)"

text \<open>
  Modelled from the spec: \<^verbatim>\<open>Context::resetLastError\<close> sets the code to Success and
  clears the message.
\<close>

definition Context_resetLastError :: "Context \<Rightarrow> Context" where
  "Context_resetLastError c = c\<lparr>lastError := VLE_Success, lastErrorMessage := []\<rparr>"

text \<open>Modelled from the spec: \<^verbatim>\<open>Context::getLastError\<close>, a pure accessor.\<close>

definition Context_getLastError :: "Context \<Rightarrow> ErrorCode" where
  "Context_getLastError c = lastError c"

text \<open>Modelled from the spec: \<^verbatim>\<open>Context::getLastErrorMessage\<close>, a pure accessor.\<close>

definition Context_getLastErrorMessage :: "Context \<Rightarrow> string" where
  "Context_getLastErrorMessage c = lastErrorMessage c"

text \<open>
  Modelled from the spec: \<^verbatim>\<open>Context::getWorkspace(device, size)\<close> ensures through
  \<^verbatim>\<open>Buffer::init\<close> that the workspace buffer of the device has capacity for \<^verbatim>\<open>size\<close>
  (bytes, so the buffer's elements are chars) and returns its handle; when the
  allocation fails the error is recorded with \<^verbatim>\<open>setError\<close> and the result is
  \<^verbatim>\<open>NULL\<close>. The state is the memory and the context.
\<close>

definition Context_getWorkspace ::
  "addr option \<Rightarrow> DeviceType \<Rightarrow> nat \<Rightarrow> Memory \<times> Context \<Rightarrow> (Memory \<times> Context) \<times> addr option"
where
  "Context_getWorkspace answer device size' st =
     (case Buffer_init answer (fst st) (workspace (snd st) device) device VLDT_Char size' of
        (m, b, error) \<Rightarrow>
          (let c = (snd st)\<lparr>workspace := (workspace (snd st))(device := b)\<rparr>
           in if error \<noteq> VLE_Success then ((m, fst (Context_setError error None c)), None)
              else ((m, c), Buffer_getMemory b)))"

text \<open>
  Modelled from the spec: \<^verbatim>\<open>Context::clearWorkspace(device)\<close> releases the workspace
  buffer of one device without touching the other device's state.
\<close>

definition Context_clearWorkspace :: "DeviceType \<Rightarrow> Memory \<times> Context \<Rightarrow> Memory \<times> Context" where
  "Context_clearWorkspace device st =
     (case Buffer_clear (fst st) (workspace (snd st) device) of
        (m, b) \<Rightarrow> (m, (snd st)\<lparr>workspace := (workspace (snd st))(device := b)\<rparr>))"

text \<open>
  Modelled from the spec: \<^verbatim>\<open>Context::getAllOnes(device, type, size)\<close> ensures through
  \<^verbatim>\<open>Buffer::init\<close> a buffer of \<^verbatim>\<open>size\<close> elements of the type on the device. The buffer
  is filled with ones whenever this call (re)allocated it, which the reallocation counter
  shows; the fill is skipped when the existing buffer already satisfied the request. A
  failed allocation is recorded with \<^verbatim>\<open>setError\<close> and the result is \<^verbatim>\<open>NULL\<close>.
\<close>

definition Context_getAllOnes ::
  "addr option \<Rightarrow> DeviceType \<Rightarrow> DataType \<Rightarrow> nat \<Rightarrow> Memory \<times> Context \<Rightarrow>
     (Memory \<times> Context) \<times> addr option"
where
  "Context_getAllOnes answer device type size' st =
     (let n = Buffer_getNumReallocations (allOnes (snd st) device)
      in case Buffer_init answer (fst st) (allOnes (snd st) device) device type size' of
           (m, b, error) \<Rightarrow>
             (let c = (snd st)\<lparr>allOnes := (allOnes (snd st))(device := b)\<rparr>
              in if error \<noteq> VLE_Success then ((m, fst (Context_setError error None c)), None)
                 else
                   (case Buffer_getMemory b of
                      None \<Rightarrow> ((m, c), None)
                    | Some p \<Rightarrow>
                        ((if n < Buffer_getNumReallocations b
                          then fillOnes device p type size' m else m, c),
                         Some p))))"

text \<open>
  Modelled from the spec: \<^verbatim>\<open>Context::clearAllOnes(device)\<close> releases the all-ones
  buffer of one device without touching the other device's state.
\<close>

definition Context_clearAllOnes :: "DeviceType \<Rightarrow> Memory \<times> Context \<Rightarrow> Memory \<times> Context" where
  "Context_clearAllOnes device st =
     (case Buffer_clear (fst st) (allOnes (snd st) device) of
        (m, b) \<Rightarrow> (m, (snd st)\<lparr>allOnes := (allOnes (snd st))(device := b)\<rparr>))"

text \<open>
  Modelled from the spec: \<^verbatim>\<open>Context::getCudaHelper\<close> constructs the accelerator helper on first
  use and returns the same instance afterwards; a failed construction is reported
  through the error channel. The first argument is what the construction yields,
  should this call construct: the helper, or the error code of the failure.
\<close>

definition Context_getCudaHelper :: "ErrorCode + addr \<Rightarrow> Context \<Rightarrow> Context \<times> addr option" where
  "Context_getCudaHelper built c =
     (case cudaHelper c of
        Some h \<Rightarrow> (c, Some h)
      | None \<Rightarrow>
          (case built of
             Inr h \<Rightarrow> (c\<lparr>cudaHelper := Some h\<rparr>, Some h)
           | Inl error \<Rightarrow> (fst (Context_setError error None c), None)))"

text \<open>
  Modelled from the spec: \<^verbatim>\<open>Context::clear\<close> clears both workspace buffers and both all-ones
  buffers and resets the last error to Success with an empty message; the accelerator
  helper is kept.
\<close>

definition Context_clear :: "Memory \<times> Context \<Rightarrow> Memory \<times> Context" where
  "Context_clear st =
     (case Context_clearAllOnes VLDT_GPU
             (Context_clearAllOnes VLDT_CPU
               (Context_clearWorkspace VLDT_GPU (Context_clearWorkspace VLDT_CPU st))) of
        (m, c) \<Rightarrow> (m, Context_resetLastError c))"

text \<open>
  Modelled from the spec: \<^verbatim>\<open>Context::invalidateGpu\<close> calls \<^verbatim>\<open>Buffer::invalidateGpu\<close> on the
  accelerator-side buffers and marks the accelerator helper as to be acquired again on
  next use; host-side state and the last error are untouched.
\<close>

definition Context_invalidateGpu :: "Memory \<times> Context \<Rightarrow> Memory \<times> Context" where
  "Context_invalidateGpu st =
     (case Buffer_invalidateGpu (fst st) (workspace (snd st) VLDT_GPU) of
        (m1, w) \<Rightarrow>
          (case Buffer_invalidateGpu m1 (allOnes (snd st) VLDT_GPU) of
             (m2, a) \<Rightarrow>
               (m2,
                (snd st)\<lparr>workspace := (workspace (snd st))(VLDT_GPU := w),
                         allOnes := (allOnes (snd st))(VLDT_GPU := a),
                         cudaHelper := None\<rparr>)))"

text \<open>
  The public operations of a context, as calls with their arguments, and their effect
  on the state. The accessors \<^verbatim>\<open>getLastError\<close> and \<^verbatim>\<open>getLastErrorMessage\<close> are
  \<^verbatim>\<open>const\<close>.
\<close>

datatype ContextOp =
    GetWorkspace "addr option" DeviceType nat
  | ClearWorkspace DeviceType
  | GetAllOnes "addr option" DeviceType DataType nat
  | ClearAllOnes DeviceType
  | GetCudaHelper "ErrorCode + addr"
  | Clear
  | InvalidateGpu
  | PassError ErrorCode "string option"
  | SetError ErrorCode "string option"
  | ResetLastError
  | GetLastError
  | GetLastErrorMessage

fun Context_call :: "ContextOp \<Rightarrow> Memory \<times> Context \<Rightarrow> Memory \<times> Context" where
  "Context_call (GetWorkspace answer device n) st = fst (Context_getWorkspace answer device n st)"
| "Context_call (ClearWorkspace device) st = Context_clearWorkspace device st"
| "Context_call (GetAllOnes answer device type n) st =
     fst (Context_getAllOnes answer device type n st)"
| "Context_call (ClearAllOnes device) st = Context_clearAllOnes device st"
| "Context_call (GetCudaHelper built) st = (fst st, fst (Context_getCudaHelper built (snd st)))"
| "Context_call Clear st = Context_clear st"
| "Context_call InvalidateGpu st = Context_invalidateGpu st"
| "Context_call (PassError error message) st =
     (fst st, fst (Context_passError error message (snd st)))"
| "Context_call (SetError error message) st =
     (fst st, fst (Context_setError error message (snd st)))"
| "Context_call ResetLastError st = (fst st, Context_resetLastError (snd st))"
| "Context_call GetLastError st = st"
| "Context_call GetLastErrorMessage st = st"

text \<open>A session: a new context, then a sequence of calls, the first call first.\<close>

definition Context_session :: "Memory \<Rightarrow> ContextOp list \<Rightarrow> Memory \<times> Context" where
  "Context_session m ops = fold Context_call ops (m, Context_new)"


subsection \<open>Invariants of a session\<close>

text \<open>
  A buffer kept for device \<open>d\<close> either holds nothing (no handle, size 0) or holds memory
  of that device. An all-ones buffer that holds memory holds a one of its data type in
  each of its elements.
\<close>

definition heldOn :: "DeviceType \<Rightarrow> Buffer \<Rightarrow> bool" where
  "heldOn d b = (case memory b of None \<Rightarrow> size_buf b = 0 | Some p \<Rightarrow> deviceType b = d)"

definition filled :: "Memory \<Rightarrow> DeviceType \<Rightarrow> Buffer \<Rightarrow> bool" where
  "filled m d b =
     (case memory b of
        None \<Rightarrow> True
      | Some p \<Rightarrow> (\<forall>i. i < size_buf b \<longrightarrow> cells m d p i = one (dataType b)))"

definition Context_invariant :: "Memory \<times> Context \<Rightarrow> bool" where
  "Context_invariant st =
     (\<forall>d. heldOn d (workspace (snd st) d) \<and> heldOn d (allOnes (snd st) d) \<and>
          filled (fst st) d (allOnes (snd st) d))"

text \<open>A memory for the examples: every cell holds the char 0 and no call was made.\<close>

definition blankMemory :: Memory where
  "blankMemory = \<lparr>cells = (\<lambda>d p i. CharValue 0), calls = []\<rparr>"

section \<open>Properties\<close>

subsection \<open>Rounded-up division on natural numbers\<close>

lemma round_up_div_upper:
  fixes a b :: nat
  assumes "0 < b"
  shows "a \<le> (a + b - 1) div b * b"
proof -
  have "(a + b - 1) mod b < b"
    using assms by simp
  then have "(a + b - 1) mod b \<le> b - 1"
    by simp
  moreover have "(a + b - 1) div b * b + (a + b - 1) mod b = a + b - 1"
    by simp
  ultimately show ?thesis
    using assms by linarith
qed

lemma round_up_div_least:
  fixes a b q :: nat
  assumes "0 < b" and "a \<le> q * b"
  shows "(a + b - 1) div b \<le> q"
proof -
  have "a + b - 1 < (q + 1) * b"
    using assms by simp
  then have "(a + b - 1) div b < q + 1"
    using assms(1) by (simp add: div_less_iff_less_mult)
  then show ?thesis
    by simp
qed

lemma round_up_div_ceiling:
  fixes a b :: nat
  assumes "0 < b"
  shows "int ((a + b - 1) div b) = \<lceil>real a / real b\<rceil>"
proof (rule sym, rule ceiling_unique)
  let ?q = "(a + b - 1) div b"
  have up: "a \<le> ?q * b"
    by (rule round_up_div_upper [OF assms])
  have "real a \<le> real (?q * b)"
    using up by (rule iffD2 [OF of_nat_le_iff])
  then show "real a / real b \<le> of_int (int ?q)"
    using assms by (simp add: divide_le_eq)
  have "?q * b \<le> a + b - 1"
    by simp
  then have "?q * b < a + b"
    using assms by linarith
  then have "real (?q * b) < real (a + b)"
    by (rule iffD2 [OF of_nat_less_iff])
  then have "(real ?q - 1) * real b < real a"
    by (simp add: algebra_simps)
  then show "of_int (int ?q) - 1 < real a / real b"
    using assms by (simp add: less_divide_eq)
qed

subsection \<open>The word instances of \<^verbatim>\<open>divideAndRoundUp\<close>\<close>

lemma divideAndRoundUp_unat:
  fixes a b :: "'a::len word"
  assumes "0 < b" and "unat a + unat b - 1 < 2 ^ LENGTH('a)"
  shows "unat (divideAndRoundUp a b) = (unat a + unat b - 1) div unat b"
proof -
  have nz: "b \<noteq> 0"
    using assms(1) by auto
  have b1: "unat (b - 1) = unat b - 1"
    using nz by (rule unat_minus_one)
  have pos: "0 < unat b"
    using nz by (simp add: unat_gt_0)
  have "unat a + unat (b - 1) < 2 ^ LENGTH('a)"
    using assms(2) pos b1 by simp
  then have "unat (a + (b - 1)) = unat a + unat (b - 1)"
    by (rule iffD1 [OF unat_add_lem])
  then have "unat (a + b - 1) = unat a + unat b - 1"
    using b1 pos by (simp add: add_diff_eq)
  then show ?thesis
    by (simp add: divideAndRoundUp_def unat_div)
qed

lemma sint_word_of_int_in_range:
  assumes "- (2 ^ (LENGTH('a::len) - 1)) \<le> k" and "k < 2 ^ (LENGTH('a) - 1)"
  shows "sint (word_of_int k :: 'a word) = k"
  using assms by (simp add: sint_sbintrunc' signed_take_bit_int_eq_self)

lemma divideAndRoundUp_signed_sint:
  fixes a b :: "'a::len word"
  assumes "0 \<le> sint a" and "0 < sint b"
    and "sint a + sint b - 1 < 2 ^ (LENGTH('a) - 1)"
  shows "sint (divideAndRoundUp_signed a b) = (sint a + sint b - 1) div sint b"
proof -
  let ?s = "sint a + sint b - 1"
  have nn: "0 \<le> ?s"
    using assms(1,2) by simp
  have "a + b - 1 = word_of_int ?s"
    by simp
  then have e: "sint (a + b - 1) = ?s"
    using nn assms(3) by (simp only: sint_word_of_int_in_range)
  have sd: "?s sdiv sint b = ?s div sint b"
    using nn assms(2) by (simp add: signed_divide_int_def sgn_if)
  have q0: "0 \<le> ?s div sint b"
    using nn assms(2) by (simp add: pos_imp_zdiv_nonneg_iff)
  have "?s div sint b \<le> ?s div 1"
    using nn assms(2) by (intro zdiv_mono2) simp_all
  then have q1: "?s div sint b < 2 ^ (LENGTH('a) - 1)"
    using assms(3) by simp
  have "sint (word_of_int (?s div sint b) :: 'a word) = ?s div sint b"
    using q0 q1 by (intro sint_word_of_int_in_range) simp_all
  then show ?thesis
    by (simp only: divideAndRoundUp_signed_def e sd)
qed

lemma round_up_div_int:
  fixes a b :: int
  assumes "0 \<le> a" and "0 < b"
  shows "(a + b - 1) div b = int ((nat a + nat b - 1) div nat b)"
proof -
  have "int (nat a + nat b - 1) = a + b - 1"
    using assms by (simp add: of_nat_diff)
  then show ?thesis
    using assms by (simp add: zdiv_int)
qed


subsection \<open>C9: \<^verbatim>\<open>divideAndRoundUp\<close> is the rounded-up quotient\<close>

text \<open>
  C9. For all integers \<open>a \<ge> 0\<close> and \<open>b > 0\<close> with \<open>a + b - 1\<close> representable in the
  integer type, \<^verbatim>\<open>divideAndRoundUp(a, b)\<close> is the ceiling of \<open>a / b\<close>: the smallest \<open>q\<close>
  with \<open>q * b \<ge> a\<close>. The first half is the unsigned instance at any width, the second
  the signed one; representable means below \<open>2 ^ w\<close> for the unsigned and below
  \<open>2 ^ (w - 1)\<close> for the signed type of width \<open>w\<close>.
\<close>

theorem divideAndRoundUp_is_ceiling:
  fixes a b :: "'a::len word"
  shows "(0 < b \<and> unat a + unat b - 1 < 2 ^ LENGTH('a) \<longrightarrow>
           int (unat (divideAndRoundUp a b)) = \<lceil>real (unat a) / real (unat b)\<rceil> \<and>
           unat a \<le> unat (divideAndRoundUp a b) * unat b \<and>
           (\<forall>q. unat a \<le> q * unat b \<longrightarrow> unat (divideAndRoundUp a b) \<le> q)) \<and>
         (0 \<le> sint a \<and> 0 < sint b \<and> sint a + sint b - 1 < 2 ^ (LENGTH('a) - 1) \<longrightarrow>
           sint (divideAndRoundUp_signed a b) =
             \<lceil>real_of_int (sint a) / real_of_int (sint b)\<rceil> \<and>
           sint a \<le> sint (divideAndRoundUp_signed a b) * sint b \<and>
           (\<forall>q. sint a \<le> q * sint b \<longrightarrow> sint (divideAndRoundUp_signed a b) \<le> q))"
proof (intro conjI impI allI; (elim conjE)?)
  assume b: "0 < b" and r: "unat a + unat b - 1 < 2 ^ LENGTH('a)"
  have pos: "0 < unat b"
    using b by (simp add: word_less_nat_alt)
  note v = divideAndRoundUp_unat [OF b r]
  show "int (unat (divideAndRoundUp a b)) = \<lceil>real (unat a) / real (unat b)\<rceil>"
    unfolding v by (rule round_up_div_ceiling [OF pos])
  show "unat a \<le> unat (divideAndRoundUp a b) * unat b"
    unfolding v by (rule round_up_div_upper [OF pos])
  show "unat (divideAndRoundUp a b) \<le> q" if "unat a \<le> q * unat b" for q
    unfolding v by (rule round_up_div_least [OF pos that])
next
  assume a0: "0 \<le> sint a" and b0: "0 < sint b"
    and r: "sint a + sint b - 1 < 2 ^ (LENGTH('a) - 1)"
  let ?A = "nat (sint a)" and ?B = "nat (sint b)"
  have pos: "0 < ?B"
    using b0 by simp
  have v: "sint (divideAndRoundUp_signed a b) = int ((?A + ?B - 1) div ?B)"
    using divideAndRoundUp_signed_sint [OF a0 b0 r] round_up_div_int [OF a0 b0] by simp
  have "int ((?A + ?B - 1) div ?B) = \<lceil>real ?A / real ?B\<rceil>"
    by (rule round_up_div_ceiling [OF pos])
  then show "sint (divideAndRoundUp_signed a b) =
      \<lceil>real_of_int (sint a) / real_of_int (sint b)\<rceil>"
    using a0 b0 v by simp
  have "int ?A \<le> int ((?A + ?B - 1) div ?B * ?B)"
    using round_up_div_upper [OF pos, of ?A] by (simp only: of_nat_le_iff)
  then show "sint a \<le> sint (divideAndRoundUp_signed a b) * sint b"
    using a0 b0 v by simp
  show "sint (divideAndRoundUp_signed a b) \<le> q" if le: "sint a \<le> q * sint b" for q
  proof -
    have q0: "0 \<le> q"
    proof (rule ccontr)
      assume "\<not> 0 \<le> q"
      then have "q * sint b < 0"
        using b0 by (simp add: mult_less_0_iff)
      then show False
        using le a0 by simp
    qed
    have "int ?A \<le> int (nat q * ?B)"
      using le a0 b0 q0 by simp
    then have "?A \<le> nat q * ?B"
      by (simp only: of_nat_le_iff)
    then have "(?A + ?B - 1) div ?B \<le> nat q"
      by (rule round_up_div_least [OF pos])
    then have "int ((?A + ?B - 1) div ?B) \<le> int (nat q)"
      by (simp only: of_nat_le_iff)
    then show ?thesis
      using q0 v by simp
  qed
qed

text \<open>Seven over two, unsigned and signed, at 64 bits.\<close>

theorem divideAndRoundUp_is_ceiling_witness:
  "int (unat (divideAndRoundUp (7 :: 64 word) 2)) = \<lceil>real (unat (7 :: 64 word)) / real (unat (2 :: 64 word))\<rceil> \<and>
   unat (7 :: 64 word) \<le> unat (divideAndRoundUp (7 :: 64 word) 2) * unat (2 :: 64 word) \<and>
   sint (divideAndRoundUp_signed (7 :: 64 word) 2) =
     \<lceil>real_of_int (sint (7 :: 64 word)) / real_of_int (sint (2 :: 64 word))\<rceil> \<and>
   divideAndRoundUp (7 :: 64 word) 2 = 4 \<and> divideAndRoundUp_signed (7 :: 64 word) 2 = 4"
proof -
  have h1: "(0 :: 64 word) < 2 \<and> unat (7 :: 64 word) + unat (2 :: 64 word) - 1 < 2 ^ LENGTH(64)"
    by simp
  have h2: "0 \<le> sint (7 :: 64 word) \<and> 0 < sint (2 :: 64 word) \<and>
      sint (7 :: 64 word) + sint (2 :: 64 word) - 1 < 2 ^ (LENGTH(64) - 1)"
    by simp
  have v1: "divideAndRoundUp (7 :: 64 word) 2 = 4"
    by (simp add: divideAndRoundUp_def)
  have v2: "divideAndRoundUp_signed (7 :: 64 word) 2 = 4"
    by (simp add: divideAndRoundUp_signed_def signed_divide_int_def)
  show ?thesis
    using divideAndRoundUp_is_ceiling [of 2 7] h1 h2 v1 v2 by blast
qed


subsection \<open>C10: \<^verbatim>\<open>getDataTypeSizeInBytes\<close> on every value\<close>

text \<open>
  C10. \<^verbatim>\<open>getDataTypeSizeInBytes\<close> returns \<^verbatim>\<open>sizeof(char)\<close> for \<^verbatim>\<open>VLDT_Char\<close>,
  \<^verbatim>\<open>sizeof(float)\<close> for \<^verbatim>\<open>VLDT_Float\<close>, \<^verbatim>\<open>sizeof(double)\<close> for \<^verbatim>\<open>VLDT_Double\<close> and 0
  for every other value of the enumeration's integer; every value has a result, which
  is one of these four.
\<close>

theorem getDataTypeSizeInBytes_total:
  "getDataTypeSizeInBytes VLDT_Char = sizeof_char \<and>
   getDataTypeSizeInBytes VLDT_Float = sizeof_float \<and>
   getDataTypeSizeInBytes VLDT_Double = sizeof_double \<and>
   (\<forall>v. v \<notin> range DataType_value \<longrightarrow> getDataTypeSizeInBytes_value v = 0) \<and>
   (\<forall>v. \<exists>n. getDataTypeSizeInBytes_value v = n \<and> n \<in> {0, sizeof_char, sizeof_float, sizeof_double})"
proof -
  have "getDataTypeSizeInBytes_value v = 0" if "v \<notin> range DataType_value" for v
  proof -
    have "v \<noteq> DataType_value VLDT_Char" "v \<noteq> DataType_value VLDT_Float"
      "v \<noteq> DataType_value VLDT_Double"
      using that by blast+
    then show ?thesis
      by (simp add: getDataTypeSizeInBytes_value_def)
  qed
  then show ?thesis
    by (simp add: getDataTypeSizeInBytes_def getDataTypeSizeInBytes_value_def)
qed

text \<open>The values 3 and -1 are no enumerator's.\<close>

theorem getDataTypeSizeInBytes_total_witness:
  "(3::int) \<notin> range DataType_value \<and> getDataTypeSizeInBytes_value 3 = 0 \<and>
   (-1::int) \<notin> range DataType_value \<and> getDataTypeSizeInBytes_value (-1) = 0"
proof -
  have r: "v \<notin> range DataType_value" if "v \<noteq> 0" "v \<noteq> 1" "v \<noteq> 2" for v
  proof
    assume "v \<in> range DataType_value"
    then obtain d where "v = DataType_value d" by blast
    then show False using that by (cases d) simp_all
  qed
  have "(3::int) \<notin> range DataType_value" "(-1::int) \<notin> range DataType_value"
    by (rule r; simp)+
  then show ?thesis
    using getDataTypeSizeInBytes_total by blast
qed

subsection \<open>Products and zero entries of the dimensions in use\<close>

lemma fold_times_prod_list:
  fixes xs :: "int list"
  shows "fold (\<lambda>d n. n * d) xs acc = acc * prod_list xs"
  by (induction xs arbitrary: acc) (simp_all add: mult.assoc)

lemma prod_list_take_nth:
  fixes xs :: "int list"
  assumes "n \<le> length xs"
  shows "prod_list (take n xs) = (\<Prod>k<n. xs ! k)"
  using assms
proof (induction n)
  case 0
  then show ?case by simp
next
  case (Suc n)
  then have "take (Suc n) xs = take n xs @ [xs ! n]"
    by (simp add: take_Suc_conv_app_nth)
  with Suc show ?case
    by (simp add: mult.commute)
qed

lemma list_ex_take_nth:
  assumes "n \<le> length xs"
  shows "list_ex P (take n xs) \<longleftrightarrow> (\<exists>k<n. P (xs ! k))"
  using assms
proof (induction n)
  case 0
  then show ?case by simp
next
  case (Suc n)
  then have "take (Suc n) xs = take n xs @ [xs ! n]"
    by (simp add: take_Suc_conv_app_nth)
  with Suc show ?case
    by (auto simp: less_Suc_eq)
qed

lemma TensorShape_ok_used:
  assumes "TensorShape_ok s"
  shows "nat (numDimensions s) \<le> length (dimensions s)"
  using assms unfolding TensorShape_ok_def by linarith

subsection \<open>C7: \<^verbatim>\<open>isEmpty\<close>\<close>

text \<open>
  C7. For every well-formed shape, \<^verbatim>\<open>isEmpty()\<close> is true if and only if some dimension
  in use is 0 or the shape has no dimensions. It is true for the shapes \<^verbatim>\<open>{}\<close> and
  \<^verbatim>\<open>{3,0,5}\<close> and false for \<^verbatim>\<open>{1,1,1}\<close>, whatever the unused entries of the array hold.
\<close>

theorem isEmpty_iff_zero_dimension:
  "(TensorShape_ok s \<longrightarrow>
      (isEmpty s \<longleftrightarrow>
         numDimensions s = 0 \<or> (\<exists>k<nat (numDimensions s). dimensions s ! k = 0))) \<and>
   isEmpty \<lparr>dimensions = [d0, d1, d2, d3, d4, d5, d6, d7], numDimensions = 0\<rparr> \<and>
   isEmpty \<lparr>dimensions = [3, 0, 5, d3, d4, d5, d6, d7], numDimensions = 3\<rparr> \<and>
   \<not> isEmpty \<lparr>dimensions = [1, 1, 1, d3, d4, d5, d6, d7], numDimensions = 3\<rparr>"
proof (intro conjI impI)
  assume ok: "TensorShape_ok s"
  then have "nat (numDimensions s) \<le> length (dimensions s)"
    by (rule TensorShape_ok_used)
  then show "isEmpty s \<longleftrightarrow>
      numDimensions s = 0 \<or> (\<exists>k<nat (numDimensions s). dimensions s ! k = 0)"
    by (simp add: isEmpty_def usedDimensions_def list_ex_take_nth)
qed (simp_all add: isEmpty_def usedDimensions_def eval_nat_numeral)

text \<open>The shape \<^verbatim>\<open>{3,0,5}\<close> is well-formed, has a zero dimension and is empty.\<close>

theorem isEmpty_iff_zero_dimension_witness:
  "TensorShape_ok \<lparr>dimensions = [3, 0, 5, 1, 1, 1, 1, 1], numDimensions = 3\<rparr> \<and>
   (isEmpty \<lparr>dimensions = [3, 0, 5, 1, 1, 1, 1, 1], numDimensions = 3\<rparr> \<longleftrightarrow>
     numDimensions \<lparr>dimensions = [3, 0, 5, 1, 1, 1, 1, 1], numDimensions = 3\<rparr> = (0::int) \<or>
     (\<exists>k<nat 3. [3, 0, 5, 1, 1, 1, 1, 1 :: int] ! k = 0)) \<and>
   isEmpty \<lparr>dimensions = [3, 0, 5, 1, 1, 1, 1, 1], numDimensions = 3\<rparr>"
proof -
  let ?s = "\<lparr>dimensions = [3, 0, 5, 1, 1, 1, 1, 1], numDimensions = 3\<rparr>"
  have ok: "TensorShape_ok ?s"
    by (simp add: TensorShape_ok_def maxNumDimensions_def)
  have e: "isEmpty ?s"
    by (simp add: isEmpty_def usedDimensions_def eval_nat_numeral)
  show ?thesis
    using isEmpty_iff_zero_dimension [of ?s] ok e by simp
qed

subsection \<open>C8: \<^verbatim>\<open>getNumElements\<close>\<close>

text \<open>
  C8. For every well-formed shape, \<^verbatim>\<open>getNumElements()\<close> is the product of the
  dimensions in use (entries \<open>0 .. numDimensions - 1\<close>), and it is 1 when the shape has
  no dimensions.
\<close>

theorem getNumElements_is_product:
  "(TensorShape_ok s \<longrightarrow>
      getNumElements s = (\<Prod>k<nat (numDimensions s). dimensions s ! k)) \<and>
   (numDimensions s = 0 \<longrightarrow> getNumElements s = 1)"
proof (intro conjI impI)
  assume "TensorShape_ok s"
  then have "nat (numDimensions s) \<le> length (dimensions s)"
    by (rule TensorShape_ok_used)
  then show "getNumElements s = (\<Prod>k<nat (numDimensions s). dimensions s ! k)"
    by (simp add: getNumElements_def usedDimensions_def fold_times_prod_list prod_list_take_nth)
next
  assume "numDimensions s = 0"
  then show "getNumElements s = 1"
    by (simp add: getNumElements_def usedDimensions_def)
qed

text \<open>The shape \<^verbatim>\<open>{2,3,4}\<close> has 24 elements; a shape without dimensions has 1.\<close>

theorem getNumElements_is_product_witness:
  "TensorShape_ok \<lparr>dimensions = [2, 3, 4, 7, 7, 7, 7, 7], numDimensions = 3\<rparr> \<and>
   getNumElements \<lparr>dimensions = [2, 3, 4, 7, 7, 7, 7, 7], numDimensions = 3\<rparr> = 24 \<and>
   getNumElements \<lparr>dimensions = [2, 3, 4, 7, 7, 7, 7, 7], numDimensions = 3\<rparr> =
     (\<Prod>k<nat 3. [2, 3, 4, 7, 7, 7, 7, 7] ! k) \<and>
   TensorShape_ok \<lparr>dimensions = [9, 9, 9, 9, 9, 9, 9, 9], numDimensions = 0\<rparr> \<and>
   getNumElements \<lparr>dimensions = [9, 9, 9, 9, 9, 9, 9, 9], numDimensions = 0\<rparr> = 1"
proof -
  let ?s = "\<lparr>dimensions = [2, 3, 4, 7, 7, 7, 7, 7], numDimensions = 3\<rparr>"
  let ?e = "\<lparr>dimensions = [9, 9, 9, 9, 9, 9, 9, 9], numDimensions = 0\<rparr>"
  have ok: "TensorShape_ok ?s" "TensorShape_ok ?e"
    by (simp_all add: TensorShape_ok_def maxNumDimensions_def)
  have v: "getNumElements ?s = 24"
    by (simp add: getNumElements_def usedDimensions_def eval_nat_numeral)
  have z: "numDimensions ?e = 0"
    by simp
  show ?thesis
    using getNumElements_is_product [of ?s] getNumElements_is_product [of ?e] ok v z by simp
qed

subsection \<open>C2: null and empty tensors are compatible with every tensor\<close>

text \<open>
  C2. For every pair of tensors, \<^verbatim>\<open>areCompatible(a, b)\<close> is true whenever either tensor
  is null or empty, whatever the device types and data types of the two are.
\<close>

theorem areCompatible_null_or_empty:
  "isNull a \<or> isEmpty a \<or> isNull b \<or> isEmpty b \<Longrightarrow> areCompatible a b"
  unfolding areCompatible_def by blast

text \<open>A null host tensor of chars and an accelerator tensor of doubles.\<close>

theorem areCompatible_null_or_empty_witness:
  "isNull \<lparr>dimensions = [2, 2, 1, 1, 1, 1, 1, 1], numDimensions = 2,
      tensor_deviceType = VLDT_CPU, tensor_dataType = VLDT_Char, tensor_memory = None,
      tensor_memorySize = 0\<rparr> \<and>
   areCompatible
     \<lparr>dimensions = [2, 2, 1, 1, 1, 1, 1, 1], numDimensions = 2,
      tensor_deviceType = VLDT_CPU, tensor_dataType = VLDT_Char, tensor_memory = None,
      tensor_memorySize = 0\<rparr>
     \<lparr>dimensions = [3, 1, 1, 1, 1, 1, 1, 1], numDimensions = 1,
      tensor_deviceType = VLDT_GPU, tensor_dataType = VLDT_Double, tensor_memory = Some 4096,
      tensor_memorySize = 24\<rparr>"
proof -
  let ?a = "\<lparr>dimensions = [2, 2, 1, 1, 1, 1, 1, 1], numDimensions = 2,
      tensor_deviceType = VLDT_CPU, tensor_dataType = VLDT_Char, tensor_memory = None,
      tensor_memorySize = 0\<rparr>"
  have n: "isNull ?a"
    by (simp add: isNull_def)
  then show ?thesis
    using areCompatible_null_or_empty [of ?a] by blast
qed

subsection \<open>C3: tensors on different devices\<close>

text \<open>
  C3 as stated, for two non-empty tensors on different devices, fails: a tensor with a
  non-empty shape and no memory is null, and a null tensor is compatible with every
  tensor. Here \<open>a\<close> is a null \<^verbatim>\<open>{1,1,1}\<close> host tensor and \<open>b\<close> a \<^verbatim>\<open>{1,1,1}\<close> tensor on
  the accelerator.
\<close>

theorem areCompatible_differing_devices_counterexample:
  "\<not> isEmpty \<lparr>dimensions = [1, 1, 1, 1, 1, 1, 1, 1], numDimensions = 3,
       tensor_deviceType = VLDT_CPU, tensor_dataType = VLDT_Float, tensor_memory = None,
       tensor_memorySize = 0\<rparr> \<and>
   \<not> isEmpty \<lparr>dimensions = [1, 1, 1, 1, 1, 1, 1, 1], numDimensions = 3,
       tensor_deviceType = VLDT_GPU, tensor_dataType = VLDT_Float, tensor_memory = Some 4096,
       tensor_memorySize = 4\<rparr> \<and>
   getDeviceType \<lparr>dimensions = [1, 1, 1, 1, 1, 1, 1, 1], numDimensions = 3,
       tensor_deviceType = VLDT_CPU, tensor_dataType = VLDT_Float, tensor_memory = None,
       tensor_memorySize = 0\<rparr> \<noteq>
   getDeviceType \<lparr>dimensions = [1, 1, 1, 1, 1, 1, 1, 1], numDimensions = 3,
       tensor_deviceType = VLDT_GPU, tensor_dataType = VLDT_Float, tensor_memory = Some 4096,
       tensor_memorySize = 4\<rparr> \<and>
   areCompatible
     \<lparr>dimensions = [1, 1, 1, 1, 1, 1, 1, 1], numDimensions = 3,
       tensor_deviceType = VLDT_CPU, tensor_dataType = VLDT_Float, tensor_memory = None,
       tensor_memorySize = 0\<rparr>
     \<lparr>dimensions = [1, 1, 1, 1, 1, 1, 1, 1], numDimensions = 3,
       tensor_deviceType = VLDT_GPU, tensor_dataType = VLDT_Float, tensor_memory = Some 4096,
       tensor_memorySize = 4\<rparr>"
  by (simp add: areCompatible_def isEmpty_def isNull_def getDeviceType_def usedDimensions_def
      eval_nat_numeral)

text \<open>
  C3, amended. For every pair of tensors that are both non-empty and both non-null, if
  their device types differ then \<^verbatim>\<open>areCompatible(a, b)\<close> is false.
\<close>

theorem areCompatible_differing_devices:
  "\<not> isEmpty a \<Longrightarrow> \<not> isNull a \<Longrightarrow> \<not> isEmpty b \<Longrightarrow> \<not> isNull b \<Longrightarrow>
   getDeviceType a \<noteq> getDeviceType b \<Longrightarrow> \<not> areCompatible a b"
  unfolding areCompatible_def by blast

text \<open>Two \<^verbatim>\<open>{1,1,1}\<close> tensors with memory, one on the host, one on the accelerator.\<close>

theorem areCompatible_differing_devices_witness:
  "\<not> areCompatible
     \<lparr>dimensions = [1, 1, 1, 1, 1, 1, 1, 1], numDimensions = 3,
       tensor_deviceType = VLDT_CPU, tensor_dataType = VLDT_Float, tensor_memory = Some 64,
       tensor_memorySize = 4\<rparr>
     \<lparr>dimensions = [1, 1, 1, 1, 1, 1, 1, 1], numDimensions = 3,
       tensor_deviceType = VLDT_GPU, tensor_dataType = VLDT_Float, tensor_memory = Some 4096,
       tensor_memorySize = 4\<rparr>"
  by (rule areCompatible_differing_devices)
    (simp_all add: isEmpty_def isNull_def getDeviceType_def usedDimensions_def eval_nat_numeral)

subsection \<open>Buffers: the ways a call of \<^verbatim>\<open>init\<close> ends\<close>

lemma getDataTypeSizeInBytes_pos: "0 < getDataTypeSizeInBytes t"
  by (cases t)
    (simp_all add: getDataTypeSizeInBytes_def getDataTypeSizeInBytes_value_def sizeof_char_def
      sizeof_float_def sizeof_double_def)

lemma fits_same_type:
  "dataType b = t \<Longrightarrow>
   (s * getDataTypeSizeInBytes t \<le> capacityInBytes b) = (s \<le> size_buf b)"
  using getDataTypeSizeInBytes_pos [of t] by (simp add: capacityInBytes_def)

lemma Buffer_clear_fields:
  "size_buf (snd (Buffer_clear m b)) = 0"
  "memory (snd (Buffer_clear m b)) = None"
  "deviceType (snd (Buffer_clear m b)) = deviceType b"
  "dataType (snd (Buffer_clear m b)) = dataType b"
  "numReallocations (snd (Buffer_clear m b)) = numReallocations b"
  by (simp_all add: Buffer_clear_def split: option.splits)

lemma Buffer_clear_calls:
  "calls (fst (Buffer_clear m b)) =
     calls m @ (case memory b of None \<Rightarrow> [] | Some q \<Rightarrow> [Release (deviceType b) q])"
  "cells (fst (Buffer_clear m b)) = cells m"
  by (simp_all add: Buffer_clear_def release_def split: option.splits)

text \<open>A call with size 0, a call that fits, a call that grows the buffer, a call that fails.\<close>

lemma Buffer_init_zero:
  "Buffer_init f m b d t 0 = (fst (Buffer_clear m b), snd (Buffer_clear m b), VLE_Success)"
  by (simp add: Buffer_init_def)

lemma Buffer_init_fits:
  assumes "0 < s" "deviceType b = d" "dataType b = t" "s \<le> size_buf b"
  shows "Buffer_init f m b d t s = (m, b, VLE_Success)"
  using assms by (simp add: Buffer_init_def fits_same_type)

lemma Buffer_init_grows:
  assumes "0 < s" "\<not> (deviceType b = d \<and> dataType b = t \<and> s \<le> size_buf b)"
  shows "Buffer_init (Some p) m b d t s =
     (allocate (Some p) d (s * getDataTypeSizeInBytes t) (fst (Buffer_clear m b)),
      (snd (Buffer_clear m b))\<lparr>deviceType := d, dataType := t, size_buf := s,
         memory := Some p, numReallocations := numReallocations b + 1\<rparr>,
      VLE_Success)"
  using assms by (auto simp: Buffer_init_def fits_same_type Let_def Buffer_clear_fields)

lemma Buffer_init_fails:
  assumes "0 < s" "\<not> (deviceType b = d \<and> dataType b = t \<and> s \<le> size_buf b)"
  shows "Buffer_init None m b d t s =
     (allocate None d (s * getDataTypeSizeInBytes t) (fst (Buffer_clear m b)),
      snd (Buffer_clear m b),
      if d = VLDT_GPU then VLE_OutOfGPUMemeory else VLE_OutOfMemory)"
  using assms by (auto simp: Buffer_init_def fits_same_type Let_def)

text \<open>After a call, a buffer that holds anything is configured as requested.\<close>

lemma Buffer_init_configured:
  assumes "Buffer_init f m b d t s = (m', b', e)" and "0 < size_buf b'"
  shows "deviceType b' = d \<and> dataType b' = t"
proof (cases "s = 0")
  case True
  with assms show ?thesis
    by (auto simp: Buffer_init_zero Buffer_clear_fields)
next
  case s: False
  show ?thesis
  proof (cases "deviceType b = d \<and> dataType b = t \<and> s \<le> size_buf b")
    case True
    with s assms show ?thesis
      by (auto simp: Buffer_init_fits)
  next
    case False
    with s assms show ?thesis
      by (cases f) (auto simp: Buffer_init_fails Buffer_init_grows Buffer_clear_fields)
  qed
qed

text \<open>The definitions a concrete call of a buffer operation unfolds to.\<close>

lemmas init_eval =
  Buffer_init_def Buffer_clear_def Buffer_new_def allocate_def release_def capacityInBytes_def
  getDataTypeSizeInBytes_def getDataTypeSizeInBytes_value_def sizeof_char_def sizeof_float_def
  sizeof_double_def Let_def blankMemory_def

text \<open>Every call of init ends in one of four ways.\<close>

lemma Buffer_init_cases [consumes 1, case_names zero fits grows fails]:
  assumes "Buffer_init f m b d t s = (m', b', e)"
  obtains
    (zero) "s = 0" "m' = fst (Buffer_clear m b)" "b' = snd (Buffer_clear m b)"
      "e = VLE_Success"
  | (fits) "0 < s" "deviceType b = d" "dataType b = t" "s \<le> size_buf b" "m' = m" "b' = b"
      "e = VLE_Success"
  | (grows) p where "0 < s" "f = Some p"
      "m' = allocate f d (s * getDataTypeSizeInBytes t) (fst (Buffer_clear m b))"
      "b' = (snd (Buffer_clear m b))\<lparr>deviceType := d, dataType := t, size_buf := s,
         memory := Some p, numReallocations := numReallocations b + 1\<rparr>"
      "e = VLE_Success"
  | (fails) "0 < s" "f = None"
      "m' = allocate f d (s * getDataTypeSizeInBytes t) (fst (Buffer_clear m b))"
      "b' = snd (Buffer_clear m b)" "e \<noteq> VLE_Success"
proof (cases "s = 0")
  case True
  with assms have "m' = fst (Buffer_clear m b)" "b' = snd (Buffer_clear m b)" "e = VLE_Success"
    by (simp_all add: Buffer_init_zero)
  with True show ?thesis
    by (rule zero)
next
  case s: False
  then have pos: "0 < s"
    by simp
  show ?thesis
  proof (cases "deviceType b = d \<and> dataType b = t \<and> s \<le> size_buf b")
    case True
    with pos assms have "m' = m" "b' = b" "e = VLE_Success"
      by (simp_all add: Buffer_init_fits)
    with pos True show ?thesis
      by (intro fits) simp_all
  next
    case False
    show ?thesis
    proof (cases f)
      case None
      from Buffer_init_fails [OF pos False, of m] assms None
      have "m' = allocate f d (s * getDataTypeSizeInBytes t) (fst (Buffer_clear m b))"
        "b' = snd (Buffer_clear m b)" "e \<noteq> VLE_Success"
        by (simp_all split: if_splits)
      with pos None show ?thesis
        by (intro fails)
    next
      case (Some p)
      from Buffer_init_grows [OF pos False, of p m] assms Some
      have "m' = allocate f d (s * getDataTypeSizeInBytes t) (fst (Buffer_clear m b))"
        "b' = (snd (Buffer_clear m b))\<lparr>deviceType := d, dataType := t, size_buf := s,
           memory := Some p, numReallocations := numReallocations b + 1\<rparr>"
        "e = VLE_Success"
        by simp_all
      with pos Some show ?thesis
        by (intro grows)
    qed
  qed
qed

lemma allocate_cells: "cells (allocate f d n m) = cells m"
  by (simp add: allocate_def)

lemma Buffer_init_cells:
  assumes "Buffer_init f m b d t s = (m', b', e)"
  shows "cells m' = cells m"
  using assms by (cases rule: Buffer_init_cases) (simp_all add: allocate_cells Buffer_clear_calls)

lemma heldOn_clear: "heldOn d (snd (Buffer_clear m b))"
  by (simp add: heldOn_def Buffer_clear_fields)

lemma Buffer_init_heldOn:
  assumes "Buffer_init f m b d t s = (m', b', e)" and "heldOn d b"
  shows "heldOn d b'"
  using assms
  by (cases rule: Buffer_init_cases) (simp_all add: heldOn_clear, simp add: heldOn_def)

lemma filled_cells: "cells m' = cells m \<Longrightarrow> filled m' d b = filled m d b"
  by (simp add: filled_def split: option.splits)

lemma filled_no_memory: "memory b = None \<Longrightarrow> filled m d b"
  by (simp add: filled_def)

lemma fillOnes_cells_other: "d' \<noteq> d \<Longrightarrow> cells (fillOnes d p t n m) d' = cells m d'"
  by (simp add: fillOnes_def)

lemma fillOnes_cells_here: "i < n \<Longrightarrow> cells (fillOnes d p t n m) d p i = one t"
  by (simp add: fillOnes_def)

lemma Buffer_invalidateGpu_heldOn:
  assumes "heldOn VLDT_GPU b"
  shows "memory (snd (Buffer_invalidateGpu m b)) = None \<and>
         size_buf (snd (Buffer_invalidateGpu m b)) = 0"
proof (cases "deviceType b = VLDT_GPU")
  case True
  then show ?thesis
    by (simp add: Buffer_invalidateGpu_def)
next
  case False
  with assms have "memory b = None \<and> size_buf b = 0"
    by (cases "memory b") (simp_all add: heldOn_def)
  with False show ?thesis
    by (simp add: Buffer_invalidateGpu_def)
qed

subsection \<open>The session invariant is kept by every operation\<close>

lemma Context_invariantI:
  assumes "\<And>d. heldOn d (workspace c d)" and "\<And>d. heldOn d (allOnes c d)"
    and "\<And>d. filled m d (allOnes c d)"
  shows "Context_invariant (m, c)"
  using assms by (simp add: Context_invariant_def)

lemma Context_invariantD:
  assumes "Context_invariant (m, c)"
  shows "heldOn d (workspace c d)" and "heldOn d (allOnes c d)" and "filled m d (allOnes c d)"
  using assms by (simp_all add: Context_invariant_def)

lemma Context_invariant_new: "Context_invariant (m, Context_new)"
  by (simp add: Context_invariant_def Context_new_def Buffer_new_def heldOn_def filled_def)

text \<open>The state after getWorkspace.\<close>

lemma Context_getWorkspace_state:
  assumes "Buffer_init f m (workspace c dev) dev VLDT_Char n = (m', b', e)"
  shows "fst (fst (Context_getWorkspace f dev n (m, c))) = m'"
    and "workspace (snd (fst (Context_getWorkspace f dev n (m, c)))) = (workspace c)(dev := b')"
    and "allOnes (snd (fst (Context_getWorkspace f dev n (m, c)))) = allOnes c"
    and "lastError (snd (fst (Context_getWorkspace f dev n (m, c)))) =
           (if e \<noteq> VLE_Success then e else lastError c)"
  using assms by (simp_all add: Context_getWorkspace_def Context_setError_def Let_def)

lemma Context_getWorkspace_invariant:
  assumes "Context_invariant (m, c)"
  shows "Context_invariant (fst (Context_getWorkspace f dev n (m, c)))"
proof -
  obtain m' b' e where init: "Buffer_init f m (workspace c dev) dev VLDT_Char n = (m', b', e)"
    using prod_cases3 by blast
  note st = Context_getWorkspace_state [OF init]
  note inv = Context_invariantD [OF assms]
  have "heldOn dev b'"
    using init inv(1) by (rule Buffer_init_heldOn)
  moreover have "filled m' d (allOnes c d) = filled m d (allOnes c d)" for d
    using Buffer_init_cells [OF init] by (rule filled_cells)
  ultimately have "Context_invariant
      (fst (fst (Context_getWorkspace f dev n (m, c))), snd (fst (Context_getWorkspace f dev n (m, c))))"
    using inv by (intro Context_invariantI) (simp_all add: st)
  then show ?thesis
    by simp
qed

lemma Context_clearWorkspace_invariant:
  assumes "Context_invariant (m, c)"
  shows "Context_invariant (Context_clearWorkspace dev (m, c))"
proof -
  note inv = Context_invariantD [OF assms]
  have "Context_clearWorkspace dev (m, c) =
      (fst (Buffer_clear m (workspace c dev)),
       c\<lparr>workspace := (workspace c)(dev := snd (Buffer_clear m (workspace c dev)))\<rparr>)"
    by (simp add: Context_clearWorkspace_def split: prod.splits)
  moreover have "filled (fst (Buffer_clear m (workspace c dev))) d (allOnes c d) =
      filled m d (allOnes c d)" for d
    by (rule filled_cells) (simp add: Buffer_clear_calls)
  ultimately show ?thesis
    using inv by (auto intro!: Context_invariantI simp: heldOn_clear)
qed

lemma Context_clearAllOnes_invariant:
  assumes "Context_invariant (m, c)"
  shows "Context_invariant (Context_clearAllOnes dev (m, c))"
proof -
  note inv = Context_invariantD [OF assms]
  have "Context_clearAllOnes dev (m, c) =
      (fst (Buffer_clear m (allOnes c dev)),
       c\<lparr>allOnes := (allOnes c)(dev := snd (Buffer_clear m (allOnes c dev)))\<rparr>)"
    by (simp add: Context_clearAllOnes_def split: prod.splits)
  moreover have "filled (fst (Buffer_clear m (allOnes c dev))) d (allOnes c d) =
      filled m d (allOnes c d)" for d
    by (rule filled_cells) (simp add: Buffer_clear_calls)
  ultimately show ?thesis
    using inv
    by (auto intro!: Context_invariantI
        simp: heldOn_clear filled_no_memory Buffer_clear_fields)
qed

lemma Context_invalidateGpu_state:
  "fst (Context_invalidateGpu (m, c)) = m"
  "workspace (snd (Context_invalidateGpu (m, c))) =
     (workspace c)(VLDT_GPU := snd (Buffer_invalidateGpu m (workspace c VLDT_GPU)))"
  "allOnes (snd (Context_invalidateGpu (m, c))) =
     (allOnes c)(VLDT_GPU := snd (Buffer_invalidateGpu m (allOnes c VLDT_GPU)))"
  "lastError (snd (Context_invalidateGpu (m, c))) = lastError c"
  "lastErrorMessage (snd (Context_invalidateGpu (m, c))) = lastErrorMessage c"
  by (simp_all add: Context_invalidateGpu_def Buffer_invalidateGpu_def split: prod.splits)

lemma Context_invalidateGpu_invariant:
  assumes "Context_invariant (m, c)"
  shows "Context_invariant (Context_invalidateGpu (m, c))"
proof -
  note inv = Context_invariantD [OF assms]
  have w: "heldOn d (snd (Buffer_invalidateGpu m (workspace c VLDT_GPU)))"
    and a: "heldOn d (snd (Buffer_invalidateGpu m (allOnes c VLDT_GPU)))"
    and f: "filled m d (snd (Buffer_invalidateGpu m (allOnes c VLDT_GPU)))" for d
    using Buffer_invalidateGpu_heldOn [OF inv(1), of m] Buffer_invalidateGpu_heldOn [OF inv(2), of m]
    by (simp_all add: heldOn_def filled_def)
  have "Context_invariant
      (fst (Context_invalidateGpu (m, c)), snd (Context_invalidateGpu (m, c)))"
    using inv w a f by (intro Context_invariantI) (simp_all add: Context_invalidateGpu_state)
  then show ?thesis
    by simp
qed

lemma filled_cells_device: "cells m' d = cells m d \<Longrightarrow> filled m' d b = filled m d b"
  by (simp add: filled_def split: option.splits)

lemma Context_getAllOnes_state:
  assumes "Buffer_init f m (allOnes c dev) dev t n = (m', b', e)"
  shows "workspace (snd (fst (Context_getAllOnes f dev t n (m, c)))) = workspace c"
    and "allOnes (snd (fst (Context_getAllOnes f dev t n (m, c)))) = (allOnes c)(dev := b')"
    and "snd (Context_getAllOnes f dev t n (m, c)) = (if e \<noteq> VLE_Success then None else memory b')"
    and "fst (fst (Context_getAllOnes f dev t n (m, c))) =
           (case memory b' of
              None \<Rightarrow> m'
            | Some p \<Rightarrow>
                if e = VLE_Success \<and> numReallocations (allOnes c dev) < numReallocations b'
                then fillOnes dev p t n m' else m')"
    and "lastError (snd (fst (Context_getAllOnes f dev t n (m, c)))) =
           (if e \<noteq> VLE_Success then e else lastError c)"
  using assms
  by (simp_all add: Context_getAllOnes_def Context_setError_def Let_def Buffer_getMemory_def
      Buffer_getNumReallocations_def split: option.splits)

text \<open>What getAllOnes leaves in the memory of its device's all-ones buffer.\<close>

lemma Context_getAllOnes_filled:
  assumes init: "Buffer_init f m (allOnes c dev) dev t n = (m', b', e)"
    and before: "filled m dev (allOnes c dev)"
  shows "filled (fst (fst (Context_getAllOnes f dev t n (m, c)))) dev b'"
  using init
proof (cases rule: Buffer_init_cases)
  case zero
  then show ?thesis
    by (simp add: filled_no_memory Buffer_clear_fields)
next
  case fits
  with before show ?thesis
    by (simp add: Context_getAllOnes_state(4) [OF init] split: option.splits)
next
  case (grows p)
  show ?thesis
    unfolding Context_getAllOnes_state(4) [OF init]
    using grows by (simp add: filled_def fillOnes_cells_here Buffer_clear_fields)
next
  case fails
  then show ?thesis
    by (simp add: filled_no_memory Buffer_clear_fields)
qed

lemma Context_getAllOnes_cells_other:
  assumes init: "Buffer_init f m (allOnes c dev) dev t n = (m', b', e)" and "d \<noteq> dev"
  shows "cells (fst (fst (Context_getAllOnes f dev t n (m, c)))) d = cells m d"
  using assms Buffer_init_cells [OF init]
  by (simp add: Context_getAllOnes_state(4) [OF init] fillOnes_cells_other split: option.splits)

lemma Context_getAllOnes_invariant:
  assumes "Context_invariant (m, c)"
  shows "Context_invariant (fst (Context_getAllOnes f dev t n (m, c)))"
proof -
  obtain m' b' e where init: "Buffer_init f m (allOnes c dev) dev t n = (m', b', e)"
    using prod_cases3 by blast
  note st = Context_getAllOnes_state [OF init]
  note inv = Context_invariantD [OF assms]
  let ?m = "fst (fst (Context_getAllOnes f dev t n (m, c)))"
  have held: "heldOn dev b'"
    using init inv(2) by (rule Buffer_init_heldOn)
  have here: "filled ?m dev b'"
    using init inv(3) by (rule Context_getAllOnes_filled)
  have other: "filled ?m d (allOnes c d)" if "d \<noteq> dev" for d
    using inv(3) [of d] filled_cells_device [OF Context_getAllOnes_cells_other [OF init that]]
    by simp
  have "Context_invariant (?m, snd (fst (Context_getAllOnes f dev t n (m, c))))"
    using inv(1,2) held here other by (intro Context_invariantI) (simp_all add: st(1,2))
  then show ?thesis
    by simp
qed

lemma Context_clear_invariant:
  assumes "Context_invariant st"
  shows "Context_invariant (Context_clear st)"
proof -
  let ?st = "Context_clearAllOnes VLDT_GPU
             (Context_clearAllOnes VLDT_CPU
               (Context_clearWorkspace VLDT_GPU (Context_clearWorkspace VLDT_CPU st)))"
  have "Context_invariant ?st"
    using assms
    by (metis Context_clearAllOnes_invariant Context_clearWorkspace_invariant prod.collapse)
  then have "Context_invariant (fst ?st, Context_resetLastError (snd ?st))"
    by (simp add: Context_invariant_def Context_resetLastError_def)
  then show ?thesis
    by (simp add: Context_clear_def case_prod_beta)
qed

lemma Context_call_invariant:
  assumes "Context_invariant st"
  shows "Context_invariant (Context_call op st)"
proof (cases st)
  case (Pair m c)
  show ?thesis
  proof (cases op)
    case (GetWorkspace f dev n)
    with Pair assms show ?thesis
      by (simp add: Context_getWorkspace_invariant)
  next
    case (ClearWorkspace dev)
    with Pair assms show ?thesis
      by (simp add: Context_clearWorkspace_invariant)
  next
    case (GetAllOnes f dev t n)
    with Pair assms show ?thesis
      by (simp add: Context_getAllOnes_invariant)
  next
    case (ClearAllOnes dev)
    with Pair assms show ?thesis
      by (simp add: Context_clearAllOnes_invariant)
  next
    case (GetCudaHelper built)
    with Pair assms show ?thesis
      by (simp add: Context_invariant_def Context_getCudaHelper_def Context_setError_def
          split: option.splits sum.splits)
  next
    case Clear
    with assms show ?thesis
      by (simp add: Context_clear_invariant)
  next
    case InvalidateGpu
    with Pair assms show ?thesis
      by (simp add: Context_invalidateGpu_invariant)
  next
    case (PassError e msg)
    with Pair assms show ?thesis
      by (simp add: Context_invariant_def Context_passError_def)
  next
    case (SetError e msg)
    with Pair assms show ?thesis
      by (simp add: Context_invariant_def Context_setError_def)
  next
    case ResetLastError
    with Pair assms show ?thesis
      by (simp add: Context_invariant_def Context_resetLastError_def)
  next
    case GetLastError
    with assms show ?thesis
      by simp
  next
    case GetLastErrorMessage
    with assms show ?thesis
      by simp
  qed
qed

lemma fold_Context_call_invariant:
  "Context_invariant st \<Longrightarrow> Context_invariant (fold Context_call ops st)"
  by (induction ops arbitrary: st) (simp_all add: Context_call_invariant)

lemma Context_session_invariant: "Context_invariant (Context_session m ops)"
  unfolding Context_session_def
  by (rule fold_Context_call_invariant) (rule Context_invariant_new)

text \<open>The definitions a concrete session unfolds to.\<close>

lemmas session_eval =
  Context_session_def Context_getAllOnes_def Context_getWorkspace_def Context_new_def
  Context_setError_def Context_passError_def Context_resetLastError_def
  Context_getLastError_def Context_getLastErrorMessage_def Context_clear_def
  Context_clearWorkspace_def Context_clearAllOnes_def Context_invalidateGpu_def
  Buffer_invalidateGpu_def Buffer_getMemory_def Buffer_getNumReallocations_def fillOnes_def
  init_eval

subsection \<open>Operations that leave the last error alone\<close>










subsection \<open>C1: two calls of \<^verbatim>\<open>Buffer::init\<close>\<close>

text \<open>
  C1 as stated fails in two places. After \<^verbatim>\<open>init(d, t, 5)\<close>, the call \<^verbatim>\<open>init(d, t, 0)\<close>
  is within the capacity and yet releases the memory: the capacity drops from 5 to 0
  with no call of \<^verbatim>\<open>clear\<close>. And \<^verbatim>\<open>init(d, t, 10)\<close>, which exceeds the capacity, leaves
  the counter at 1 and the capacity at 0 when the allocation fails.
\<close>

theorem Buffer_init_capacity_counterexample:
  "(0::nat) \<le>
     size_buf (fst (snd (Buffer_init (Some 4096) blankMemory Buffer_new VLDT_CPU VLDT_Char 5))) \<and>
   \<not> size_buf (fst (snd (Buffer_init (Some 4096) blankMemory Buffer_new VLDT_CPU VLDT_Char 5)))
       \<le> size_buf (fst (snd (Buffer_init (Some 8192)
           (fst (Buffer_init (Some 4096) blankMemory Buffer_new VLDT_CPU VLDT_Char 5))
           (fst (snd (Buffer_init (Some 4096) blankMemory Buffer_new VLDT_CPU VLDT_Char 5)))
           VLDT_CPU VLDT_Char 0))) \<and>
   size_buf (fst (snd (Buffer_init (Some 4096) blankMemory Buffer_new VLDT_CPU VLDT_Char 5)))
     < 10 \<and>
   numReallocations (fst (snd (Buffer_init None
      (fst (Buffer_init (Some 4096) blankMemory Buffer_new VLDT_CPU VLDT_Char 5))
      (fst (snd (Buffer_init (Some 4096) blankMemory Buffer_new VLDT_CPU VLDT_Char 5)))
      VLDT_CPU VLDT_Char 10))) \<noteq>
     numReallocations
       (fst (snd (Buffer_init (Some 4096) blankMemory Buffer_new VLDT_CPU VLDT_Char 5))) + 1 \<and>
   \<not> 10 \<le> size_buf (fst (snd (Buffer_init None
      (fst (Buffer_init (Some 4096) blankMemory Buffer_new VLDT_CPU VLDT_Char 5))
      (fst (snd (Buffer_init (Some 4096) blankMemory Buffer_new VLDT_CPU VLDT_Char 5)))
      VLDT_CPU VLDT_Char 10)))"
  by (simp add: init_eval)

text \<open>
  C1, amended. For every buffer and every pair of calls \<^verbatim>\<open>init(d, t, s1)\<close> then
  \<^verbatim>\<open>init(d, t, s2)\<close> with the same device and data type: if \<open>s2\<close> is positive and within
  the capacity established by the first call, the second call makes no memory call and
  leaves the buffer, with its reallocation counter, unchanged; if \<open>s2\<close> is 0 it releases
  the held memory without allocating and leaves the counter unchanged; if \<open>s2\<close> exceeds
  that capacity and the allocation succeeds, the counter increments by exactly 1 and
  the resulting capacity is \<open>s2\<close>; if the allocation fails the buffer is left empty with
  the counter unchanged and the error is the device's out-of-memory code. The capacity
  does not decrease across a call with a positive size that succeeds, and is then at
  least the size requested. The capacity is the size field, in elements of the data
  type.
\<close>

theorem Buffer_init_twice:
  assumes first: "Buffer_init f1 m0 b0 d t s1 = (m1, b1, e1)"
    and second: "Buffer_init f2 m1 b1 d t s2 = (m2, b2, e2)"
  shows
    "(0 < s2 \<and> s2 \<le> size_buf b1 \<longrightarrow> m2 = m1 \<and> b2 = b1 \<and> e2 = VLE_Success) \<and>
     (s2 = 0 \<longrightarrow>
        numReallocations b2 = numReallocations b1 \<and> size_buf b2 = 0 \<and> memory b2 = None \<and>
        e2 = VLE_Success \<and>
        calls m2 =
          calls m1 @ (case memory b1 of None \<Rightarrow> [] | Some q \<Rightarrow> [Release (deviceType b1) q])) \<and>
     (size_buf b1 < s2 \<and> f2 \<noteq> None \<longrightarrow>
        numReallocations b2 = numReallocations b1 + 1 \<and> size_buf b2 = s2 \<and>
        memory b2 = f2 \<and> deviceType b2 = d \<and> dataType b2 = t \<and> e2 = VLE_Success) \<and>
     (size_buf b1 < s2 \<and> f2 = None \<longrightarrow>
        numReallocations b2 = numReallocations b1 \<and> size_buf b2 = 0 \<and> memory b2 = None \<and>
        e2 = (if d = VLDT_GPU then VLE_OutOfGPUMemeory else VLE_OutOfMemory)) \<and>
     (0 < s2 \<and> e2 = VLE_Success \<longrightarrow> size_buf b1 \<le> size_buf b2 \<and> s2 \<le> size_buf b2)"
proof (intro conjI impI; (elim conjE)?)
  assume s: "0 < s2" "s2 \<le> size_buf b1"
  then have "deviceType b1 = d \<and> dataType b1 = t"
    using Buffer_init_configured [OF first] by simp
  with s second show "m2 = m1" "b2 = b1" "e2 = VLE_Success"
    by (simp_all add: Buffer_init_fits)
next
  assume "s2 = 0"
  with second have r: "m2 = fst (Buffer_clear m1 b1)" "b2 = snd (Buffer_clear m1 b1)"
    "e2 = VLE_Success"
    by (simp_all add: Buffer_init_zero)
  show "numReallocations b2 = numReallocations b1" "size_buf b2 = 0" "memory b2 = None"
    "e2 = VLE_Success"
    "calls m2 =
       calls m1 @ (case memory b1 of None \<Rightarrow> [] | Some q \<Rightarrow> [Release (deviceType b1) q])"
    by (simp_all add: r Buffer_clear_fields Buffer_clear_calls)
next
  assume s: "size_buf b1 < s2" and f: "f2 \<noteq> None"
  from f obtain p where p: "f2 = Some p"
    by blast
  have "0 < s2" "\<not> (deviceType b1 = d \<and> dataType b1 = t \<and> s2 \<le> size_buf b1)"
    using s by simp_all
  from Buffer_init_grows [OF this] second p
  show "numReallocations b2 = numReallocations b1 + 1" "size_buf b2 = s2" "memory b2 = f2"
    "deviceType b2 = d" "dataType b2 = t" "e2 = VLE_Success"
    by auto
next
  assume s: "size_buf b1 < s2" and f: "f2 = None"
  have "0 < s2" "\<not> (deviceType b1 = d \<and> dataType b1 = t \<and> s2 \<le> size_buf b1)"
    using s by simp_all
  from Buffer_init_fails [OF this] second f
  show "numReallocations b2 = numReallocations b1" "size_buf b2 = 0" "memory b2 = None"
    "e2 = (if d = VLDT_GPU then VLE_OutOfGPUMemeory else VLE_OutOfMemory)"
    by (auto simp: Buffer_clear_fields)
next
  assume s: "0 < s2" and ok: "e2 = VLE_Success"
  show "size_buf b1 \<le> size_buf b2" "s2 \<le> size_buf b2"
  proof -
    consider (fits) "deviceType b1 = d \<and> dataType b1 = t \<and> s2 \<le> size_buf b1"
      | (grows) p where "\<not> (deviceType b1 = d \<and> dataType b1 = t \<and> s2 \<le> size_buf b1)"
          "f2 = Some p"
      | (fails) "\<not> (deviceType b1 = d \<and> dataType b1 = t \<and> s2 \<le> size_buf b1)" "f2 = None"
      by (cases f2) auto
    then have "size_buf b1 \<le> size_buf b2 \<and> s2 \<le> size_buf b2"
    proof cases
      case fits
      with s second show ?thesis
        by (simp add: Buffer_init_fits)
    next
      case grows
      from Buffer_init_grows [OF s grows(1)] second grows(2)
      have sz: "size_buf b2 = s2"
        by auto
      have "size_buf b1 < s2"
      proof (rule ccontr)
        assume "\<not> size_buf b1 < s2"
        then have "s2 \<le> size_buf b1"
          by simp
        moreover from this s have "deviceType b1 = d \<and> dataType b1 = t"
          using Buffer_init_configured [OF first] by simp
        ultimately show False
          using grows(1) by simp
      qed
      with sz show ?thesis
        by simp
    next
      case fails
      from Buffer_init_fails [OF s fails(1)] second fails(2) ok show ?thesis
        by (auto split: if_splits)
    qed
    then show "size_buf b1 \<le> size_buf b2" "s2 \<le> size_buf b2"
      by simp_all
  qed
qed

text \<open>
  After \<^verbatim>\<open>init(CPU, Float, 10)\<close> on a new buffer: a request for 5 changes nothing, a
  request for 0 releases the block, a request for 20 reallocates, and a request for 20
  that the allocator refuses leaves the buffer empty.
\<close>

theorem Buffer_init_twice_witness:
  "(case Buffer_init (Some 4096) blankMemory Buffer_new VLDT_CPU VLDT_Float 10 of
      (m1, b1, e1) \<Rightarrow>
        size_buf b1 = 10 \<and>
        (case Buffer_init (Some 8192) m1 b1 VLDT_CPU VLDT_Float 5 of
           (m2, b2, e2) \<Rightarrow> m2 = m1 \<and> b2 = b1 \<and> e2 = VLE_Success) \<and>
        (case Buffer_init (Some 8192) m1 b1 VLDT_CPU VLDT_Float 0 of
           (m2, b2, e2) \<Rightarrow>
             numReallocations b2 = numReallocations b1 \<and> size_buf b2 = 0 \<and>
             calls m2 = calls m1 @ [Release VLDT_CPU 4096]) \<and>
        (case Buffer_init (Some 8192) m1 b1 VLDT_CPU VLDT_Float 20 of
           (m2, b2, e2) \<Rightarrow>
             numReallocations b2 = numReallocations b1 + 1 \<and> size_buf b2 = 20 \<and>
             size_buf b1 \<le> size_buf b2) \<and>
        (case Buffer_init None m1 b1 VLDT_CPU VLDT_Float 20 of
           (m2, b2, e2) \<Rightarrow>
             numReallocations b2 = numReallocations b1 \<and> size_buf b2 = 0 \<and>
             e2 = VLE_OutOfMemory))"
proof -
  obtain m1 b1 e1 where
    first: "Buffer_init (Some 4096) blankMemory Buffer_new VLDT_CPU VLDT_Float 10 = (m1, b1, e1)"
    using prod_cases3 by blast
  then have b1: "size_buf b1 = 10" "memory b1 = Some 4096" "deviceType b1 = VLDT_CPU"
    by (auto simp: init_eval)
  obtain m2 b2 e2 where
    fits: "Buffer_init (Some 8192) m1 b1 VLDT_CPU VLDT_Float 5 = (m2, b2, e2)"
    using prod_cases3 by blast
  obtain m3 b3 e3 where
    zero: "Buffer_init (Some 8192) m1 b1 VLDT_CPU VLDT_Float 0 = (m3, b3, e3)"
    using prod_cases3 by blast
  obtain m4 b4 e4 where
    grows: "Buffer_init (Some 8192) m1 b1 VLDT_CPU VLDT_Float 20 = (m4, b4, e4)"
    using prod_cases3 by blast
  obtain m5 b5 e5 where
    fails: "Buffer_init None m1 b1 VLDT_CPU VLDT_Float 20 = (m5, b5, e5)"
    using prod_cases3 by blast
  show ?thesis
    using Buffer_init_twice [OF first fits] Buffer_init_twice [OF first zero]
      Buffer_init_twice [OF first grows] Buffer_init_twice [OF first fails] b1
    by (simp add: first fits zero grows fails)
qed

subsection \<open>C5: the all-ones buffer holds ones\<close>



subsection \<open>C6: \<^verbatim>\<open>invalidateGpu\<close>\<close>

text \<open>
  C6. \<^verbatim>\<open>Buffer::invalidateGpu\<close> on an accelerator buffer drops the handle and sets the
  size to 0, with no memory call (so no device-side free) and no error to report; on a
  host buffer it does nothing. \<^verbatim>\<open>Context::invalidateGpu\<close> applies it to the
  accelerator's workspace and all-ones buffers, and leaves the memory, the host's
  buffers and the last error with its message unchanged. In every state a context
  reaches, the accelerator's buffers hold nothing afterwards and no memory call was
  added.
\<close>

theorem invalidateGpu_drops_accelerator_memory:
  "(deviceType b = VLDT_GPU \<longrightarrow>
      Buffer_invalidateGpu m b = (m, b\<lparr>size_buf := 0, memory := None\<rparr>)) \<and>
   (deviceType b = VLDT_CPU \<longrightarrow> Buffer_invalidateGpu m b = (m, b)) \<and>
   fst (Context_invalidateGpu (m, c)) = m \<and>
   workspace (snd (Context_invalidateGpu (m, c))) VLDT_GPU =
     snd (Buffer_invalidateGpu m (workspace c VLDT_GPU)) \<and>
   allOnes (snd (Context_invalidateGpu (m, c))) VLDT_GPU =
     snd (Buffer_invalidateGpu m (allOnes c VLDT_GPU)) \<and>
   workspace (snd (Context_invalidateGpu (m, c))) VLDT_CPU = workspace c VLDT_CPU \<and>
   allOnes (snd (Context_invalidateGpu (m, c))) VLDT_CPU = allOnes c VLDT_CPU \<and>
   lastError (snd (Context_invalidateGpu (m, c))) = lastError c \<and>
   lastErrorMessage (snd (Context_invalidateGpu (m, c))) = lastErrorMessage c \<and>
   memory (workspace (snd (Context_invalidateGpu (Context_session m0 ops))) VLDT_GPU) = None \<and>
   size_buf (workspace (snd (Context_invalidateGpu (Context_session m0 ops))) VLDT_GPU) = 0 \<and>
   memory (allOnes (snd (Context_invalidateGpu (Context_session m0 ops))) VLDT_GPU) = None \<and>
   size_buf (allOnes (snd (Context_invalidateGpu (Context_session m0 ops))) VLDT_GPU) = 0 \<and>
   calls (fst (Context_invalidateGpu (Context_session m0 ops))) =
     calls (fst (Context_session m0 ops))"
proof -
  obtain m1 c1 where st: "Context_session m0 ops = (m1, c1)"
    by (cases "Context_session m0 ops")
  have inv: "Context_invariant (m1, c1)"
    using Context_session_invariant [of m0 ops] st by simp
  note held = Context_invariantD(1,2) [OF inv, of VLDT_GPU]
  have "memory (workspace (snd (Context_invalidateGpu (m1, c1))) VLDT_GPU) = None"
    "size_buf (workspace (snd (Context_invalidateGpu (m1, c1))) VLDT_GPU) = 0"
    "memory (allOnes (snd (Context_invalidateGpu (m1, c1))) VLDT_GPU) = None"
    "size_buf (allOnes (snd (Context_invalidateGpu (m1, c1))) VLDT_GPU) = 0"
    "calls (fst (Context_invalidateGpu (m1, c1))) = calls m1"
    using Buffer_invalidateGpu_heldOn [OF held(1), of m1]
      Buffer_invalidateGpu_heldOn [OF held(2), of m1]
    by (simp_all add: Context_invalidateGpu_state)
  then show ?thesis
    by (simp add: st Context_invalidateGpu_state) (simp add: Buffer_invalidateGpu_def)
qed

text \<open>
  An accelerator buffer and a host buffer of ten floats; and a context with a workspace
  on each device.
\<close>

theorem invalidateGpu_drops_accelerator_memory_witness:
  "Buffer_invalidateGpu blankMemory
     \<lparr>deviceType = VLDT_GPU, dataType = VLDT_Float, size_buf = 10, memory = Some 4096,
      numReallocations = 1\<rparr> =
     (blankMemory,
      \<lparr>deviceType = VLDT_GPU, dataType = VLDT_Float, size_buf = 0, memory = None,
       numReallocations = 1\<rparr>) \<and>
   Buffer_invalidateGpu blankMemory
     \<lparr>deviceType = VLDT_CPU, dataType = VLDT_Float, size_buf = 10, memory = Some 64,
      numReallocations = 1\<rparr> =
     (blankMemory,
      \<lparr>deviceType = VLDT_CPU, dataType = VLDT_Float, size_buf = 10, memory = Some 64,
       numReallocations = 1\<rparr>) \<and>
   memory (workspace (snd (Context_session blankMemory
      [GetWorkspace (Some 4096) VLDT_GPU 1024, GetWorkspace (Some 64) VLDT_CPU 16])) VLDT_GPU) =
     Some 4096 \<and>
   memory (workspace (snd (Context_invalidateGpu (Context_session blankMemory
      [GetWorkspace (Some 4096) VLDT_GPU 1024, GetWorkspace (Some 64) VLDT_CPU 16]))) VLDT_GPU) =
     None"
proof -
  let ?g = "\<lparr>deviceType = VLDT_GPU, dataType = VLDT_Float, size_buf = 10, memory = Some 4096,
      numReallocations = 1\<rparr>"
  let ?h = "\<lparr>deviceType = VLDT_CPU, dataType = VLDT_Float, size_buf = 10, memory = Some 64,
      numReallocations = 1\<rparr>"
  let ?ops = "[GetWorkspace (Some 4096) VLDT_GPU 1024, GetWorkspace (Some 64) VLDT_CPU 16]"
  have "memory (workspace (snd (Context_session blankMemory ?ops)) VLDT_GPU) = Some 4096"
    by (simp add: session_eval)
  then show ?thesis
    using invalidateGpu_drops_accelerator_memory [of ?g blankMemory _ blankMemory ?ops]
      invalidateGpu_drops_accelerator_memory [of ?h blankMemory]
    by simp
qed

subsection \<open>C4: the last-error slot\<close>




end
